theory Spec2Isabelle
  imports Complex_Main
begin

section \<open>The session bus as the plugins see it\<close>

text \<open>
  The three plugins (hamster.py, hotot.py, media_players.py) talk to other applications
  over the session bus. The outside world is a snapshot \<open>env\<close>: which bus operations
  raise a DBusException, and what the remote side replies. What a plugin does to the
  outside is recorded in \<open>effects\<close>: the lines handed to pretty.print_debug and the bus
  operations attempted, in order.
\<close>

datatype dbus_exception = DBusException string

datatype exn =
    DBus dbus_exception
  | AttributeError string
  | KeyError string

text \<open>\<open>bus.get_object(name, path)\<close> and \<open>dbus.Interface(obj, dbus_interface)\<close>.\<close>

datatype dbus_obj = ProxyObject string string

datatype iface = Interface dbus_obj string

datatype arg = Str string | Num real | IntArg int | Bool bool

datatype event =
    EvSessionBus
  | EvGetObject string string
  | EvCall iface string "arg list"

record env =
  session_bus_fails :: "string option"
  get_object_fails :: "string \<Rightarrow> string \<Rightarrow> string option"
  call_fails :: "iface \<Rightarrow> string \<Rightarrow> arg list \<Rightarrow> string option"
  list_names :: "string list"
  property_reply :: "dbus_obj \<Rightarrow> string \<Rightarrow> string \<Rightarrow> string"
  hamster_activities :: "(string \<times> string) list"
  time_time :: real
  time_timezone :: int

record effects =
  debug_log :: "string list list"
  trace :: "event list"

definition print_debug :: "string list \<Rightarrow> effects \<Rightarrow> effects" where
  "print_debug args fx = fx\<lparr>debug_log := debug_log fx @ [args]\<rparr>"

definition emit :: "event \<Rightarrow> effects \<Rightarrow> effects" where
  "emit e fx = fx\<lparr>trace := trace fx @ [e]\<rparr>"

text \<open>\<open>dbus.SessionBus()\<close>: one attempt to reach the session bus.\<close>

definition dbus_SessionBus :: "env \<Rightarrow> effects \<Rightarrow> (dbus_exception + unit) \<times> effects" where
  "dbus_SessionBus E fx =
     (case session_bus_fails E of
        Some err \<Rightarrow> (Inl (DBusException err), emit EvSessionBus fx)
      | None \<Rightarrow> (Inr (), emit EvSessionBus fx))"

definition bus_get_object ::
  "env \<Rightarrow> string \<Rightarrow> string \<Rightarrow> effects \<Rightarrow> (dbus_exception + dbus_obj) \<times> effects" where
  "bus_get_object E bus_name path fx =
     (case get_object_fails E bus_name path of
        Some err \<Rightarrow> (Inl (DBusException err), emit (EvGetObject bus_name path) fx)
      | None \<Rightarrow> (Inr (ProxyObject bus_name path), emit (EvGetObject bus_name path) fx))"

text \<open>
  A method call on a remote interface: the call is made (and recorded), then either the
  remote side's reply comes back or a DBusException is raised in the caller.
\<close>

definition dbus_call ::
  "env \<Rightarrow> iface \<Rightarrow> string \<Rightarrow> arg list \<Rightarrow> 'a \<Rightarrow> effects \<Rightarrow> (exn + 'a) \<times> effects" where
  "dbus_call E i method args reply fx =
     (case call_fails E i method args of
        Some err \<Rightarrow> (Inl (DBus (DBusException err)), emit (EvCall i method args) fx)
      | None \<Rightarrow> (Inr reply, emit (EvCall i method args) fx))"

text \<open>Attribute access on None, as in \<open>get_hamster().Toggle()\<close> when the helper gave None.\<close>

definition none_attribute :: "string \<Rightarrow> exn" where
  "none_attribute attr = AttributeError (''NoneType object has no attribute '' @ attr)"

text \<open>\<open>s.startswith(p)\<close>\<close>

definition startswith :: "string \<Rightarrow> string \<Rightarrow> bool" where
  "startswith s p = (take (length p) s = p)"

text \<open>\<open>s.replace(old, new)\<close> for a one-character \<open>old\<close>.\<close>

fun str_replace :: "char \<Rightarrow> string \<Rightarrow> string \<Rightarrow> string" where
  "str_replace old new [] = []"
| "str_replace old new (c # s) =
     (if c = old then new @ str_replace old new s else c # str_replace old new s)"

text \<open>
  The host's leaves, as far as the plugins read them: \<open>leaf.object\<close> and the leaf's name
  for a text or activity leaf; \<open>item.get_id()\<close> and \<open>item.name\<close> for an application leaf.
\<close>

record Leaf =
  leaf_object :: string
  leaf_name :: string

record AppLeaf =
  app_id :: string
  app_name :: string

section \<open>hamster.py\<close>

definition HAMSTER_APPNAMES :: "string list" where
  "HAMSTER_APPNAMES = [''hamster-indicator'', ''hamster-time-tracker'']"

definition get_hamster :: "env \<Rightarrow> effects \<Rightarrow> iface option \<times> effects" where
  "get_hamster E fx =
     (case dbus_SessionBus E fx of
        (Inl (DBusException err), fx1) \<Rightarrow> (None, print_debug [err] fx1)
      | (Inr bus, fx1) \<Rightarrow>
          (case bus_get_object E ''org.gnome.Hamster'' ''/org/gnome/Hamster'' fx1 of
             (Inl (DBusException err), fx2) \<Rightarrow> (None, print_debug [err] fx2)
           | (Inr dbusObj, fx2) \<Rightarrow> (Some (Interface dbusObj ''org.gnome.Hamster''), fx2)))"

definition Toggle_valid_for_item :: "env \<Rightarrow> AppLeaf \<Rightarrow> effects \<Rightarrow> bool \<times> effects" where
  "Toggle_valid_for_item E item fx =
     (if app_id item \<in> set HAMSTER_APPNAMES
      then (case get_hamster E fx of (h, fx1) \<Rightarrow> (h \<noteq> None, fx1))
      else (False, fx))"

definition Toggle_activate :: "env \<Rightarrow> AppLeaf \<Rightarrow> effects \<Rightarrow> (exn + unit) \<times> effects" where
  "Toggle_activate E leaf fx =
     (case get_hamster E fx of
        (None, fx1) \<Rightarrow> (Inl (none_attribute ''Toggle''), fx1)
      | (Some hamster, fx1) \<Rightarrow> dbus_call E hamster ''Toggle'' [] () fx1)"

definition StartActivity_activate :: "env \<Rightarrow> Leaf \<Rightarrow> effects \<Rightarrow> (exn + unit) \<times> effects" where
  "StartActivity_activate E leaf fx =
     (case get_hamster E fx of
        (None, fx1) \<Rightarrow> (Inl (none_attribute ''AddFact''), fx1)
      | (Some hamster, fx1) \<Rightarrow>
          dbus_call E hamster ''AddFact''
            [Str (leaf_object leaf), Num (time_time E - real_of_int (time_timezone E)),
             IntArg 0, Bool False] () fx1)"

definition StopTrackingLeaf_run :: "env \<Rightarrow> effects \<Rightarrow> (exn + unit) \<times> effects" where
  "StopTrackingLeaf_run E fx =
     (case get_hamster E fx of
        (None, fx1) \<Rightarrow> (Inl (none_attribute ''StopTracking''), fx1)
      | (Some hamster, fx1) \<Rightarrow>
          dbus_call E hamster ''StopTracking''
            [Num (time_time E - real_of_int (time_timezone E))] () fx1)"

text \<open>\<open>Leaf.__init__(self, activity, activity)\<close>: the activity is both object and name.\<close>

definition ActivityLeaf :: "string \<Rightarrow> Leaf" where
  "ActivityLeaf activity = \<lparr>leaf_object = activity, leaf_name = activity\<rparr>"

text \<open>The body of the loop of \<open>ActivitiesSource.get_items\<close>, over the records of the reply.\<close>

fun activity_leaves :: "(string \<times> string) list \<Rightarrow> Leaf list" where
  "activity_leaves [] = []"
| "activity_leaves (act # acts) =
     (let activity = fst act;
          activity = (if snd act \<noteq> [] then activity @ ''@'' @ snd act else activity)
      in ActivityLeaf activity # activity_leaves acts)"

definition ActivitiesSource_get_items :: "env \<Rightarrow> effects \<Rightarrow> (exn + Leaf list) \<times> effects" where
  "ActivitiesSource_get_items E fx =
     (case get_hamster E fx of
        (None, fx1) \<Rightarrow> (Inl (none_attribute ''GetActivities''), fx1)
      | (Some hamster, fx1) \<Rightarrow>
          (case dbus_call E hamster ''GetActivities'' [Str ''''] (hamster_activities E) fx1 of
             (Inl e, fx2) \<Rightarrow> (Inl e, fx2)
           | (Inr acts, fx2) \<Rightarrow> (Inr (activity_leaves acts), fx2)))"

section \<open>hotot.py\<close>

text \<open>\<open>__name__\<close> of the module, the first argument of its debug lines.\<close>

definition hotot_module :: string where
  "hotot_module = ''hotot''"

definition get_hotot :: "env \<Rightarrow> effects \<Rightarrow> iface option \<times> effects" where
  "get_hotot E fx =
     (case dbus_SessionBus E fx of
        (Inl (DBusException err), fx1) \<Rightarrow> (None, print_debug [err] fx1)
      | (Inr bus, fx1) \<Rightarrow>
          (case bus_get_object E ''org.hotot.service'' ''/org/hotot/service'' fx1 of
             (Inl (DBusException err), fx2) \<Rightarrow> (None, print_debug [err] fx2)
           | (Inr dbusObj, fx2) \<Rightarrow> (Some (Interface dbusObj ''org.hotot.service''), fx2)))"

text \<open>
  \<open>text = leaf.object.replace('"', '\\"')\<close>: every double quote (character 0x22) becomes
  a backslash (0x5C) followed by the double quote.
\<close>

definition SendUpdate_activate :: "env \<Rightarrow> Leaf \<Rightarrow> effects \<Rightarrow> (exn + unit) \<times> effects" where
  "SendUpdate_activate E leaf fx =
     (let fx1 = print_debug [hotot_module, leaf_object leaf] fx;
          text = str_replace (CHR 0x22) [CHR 0x5C, CHR 0x22] (leaf_object leaf);
          fx2 = print_debug [hotot_module, ''SendUpdate: '' @ text] fx1
      in case get_hotot E fx2 of
           (None, fx3) \<Rightarrow> (Inl (none_attribute ''update_status''), fx3)
         | (Some hotot, fx3) \<Rightarrow> dbus_call E hotot ''update_status'' [Str text] () fx3)"

definition SendUpdate_valid_for_item :: "env \<Rightarrow> Leaf \<Rightarrow> effects \<Rightarrow> bool \<times> effects" where
  "SendUpdate_valid_for_item E item fx =
     (case get_hotot E fx of (h, fx1) \<Rightarrow> (h \<noteq> None, fx1))"

text \<open>
  The three subclasses of \<open>HototAction\<close>, each with the function it hands to
  \<open>HototAction.__init__\<close> (\<open>hotot.show()\<close>, \<open>hotot.hide()\<close>, \<open>hotot.quit()\<close>).
\<close>

datatype HototAction = Show | Hide | HototQuit

fun HototAction_func :: "HototAction \<Rightarrow> string" where
  "HototAction_func Show = ''show''"
| "HototAction_func Hide = ''hide''"
| "HototAction_func HototQuit = ''quit''"

definition HototAction_activate ::
  "env \<Rightarrow> HototAction \<Rightarrow> AppLeaf \<Rightarrow> effects \<Rightarrow> (exn + unit) \<times> effects" where
  "HototAction_activate E self leaf fx =
     (case get_hotot E fx of
        (None, fx1) \<Rightarrow> (Inl (none_attribute (HototAction_func self)), fx1)
      | (Some hotot, fx1) \<Rightarrow> dbus_call E hotot (HototAction_func self) [] () fx1)"

definition HototAction_valid_for_item ::
  "env \<Rightarrow> HototAction \<Rightarrow> AppLeaf \<Rightarrow> effects \<Rightarrow> bool \<times> effects" where
  "HototAction_valid_for_item E self item fx =
     (if app_name item = ''Hotot''
      then (case get_hotot E fx of (h, fx1) \<Rightarrow> (h \<noteq> None, fx1))
      else (False, fx))"

section \<open>media_players.py\<close>

definition media_players_module :: string where
  "media_players_module = ''media_players''"

definition mpris_prefix :: string where
  "mpris_prefix = ''org.mpris.MediaPlayer2.''"

datatype MediaPlayer = MediaPlayer dbus_obj

fun root :: "MediaPlayer \<Rightarrow> iface" where
  "root (MediaPlayer dbus_obj) = Interface dbus_obj ''org.mpris.MediaPlayer2''"

fun player :: "MediaPlayer \<Rightarrow> iface" where
  "player (MediaPlayer dbus_obj) = Interface dbus_obj ''org.mpris.MediaPlayer2.Player''"

fun MediaPlayer_get_property ::
  "env \<Rightarrow> MediaPlayer \<Rightarrow> string \<Rightarrow> string \<Rightarrow> effects \<Rightarrow> (exn + string) \<times> effects" where
  "MediaPlayer_get_property E (MediaPlayer dbus_obj) target property_name fx =
     dbus_call E (Interface dbus_obj ''org.freedesktop.DBus.Properties'') ''Get''
       [Str target, Str property_name] (property_reply E dbus_obj target property_name) fx"

definition get_root_property ::
  "env \<Rightarrow> MediaPlayer \<Rightarrow> string \<Rightarrow> effects \<Rightarrow> (exn + string) \<times> effects" where
  "get_root_property E self property_name fx =
     MediaPlayer_get_property E self ''org.mpris.MediaPlayer2'' property_name fx"

definition MediaPlayer_name :: "env \<Rightarrow> MediaPlayer \<Rightarrow> effects \<Rightarrow> (exn + string) \<times> effects" where
  "MediaPlayer_name E self fx = get_root_property E self ''DesktopEntry'' fx"

text \<open>
  The dict \<open>active_players\<close>: an association list with one pair per key.
  \<open>d[k] = v\<close> replaces the value of a key that is there and adds the key otherwise;
  \<open>d[k]\<close> raises KeyError on a key that is not there; iterating yields the keys.
\<close>

fun dict_set :: "string \<Rightarrow> 'v \<Rightarrow> (string \<times> 'v) list \<Rightarrow> (string \<times> 'v) list" where
  "dict_set k v [] = [(k, v)]"
| "dict_set k v (kv # d) = (if fst kv = k then (k, v) # d else kv # dict_set k v d)"

definition dict_get :: "(string \<times> 'v) list \<Rightarrow> string \<Rightarrow> exn + 'v" where
  "dict_get d k = (case map_of d k of None \<Rightarrow> Inl (KeyError k) | Some v \<Rightarrow> Inr v)"

record MediaPlayersRegistry =
  active_players :: "(string \<times> MediaPlayer) list"

text \<open>
  The loop of \<open>reindex\<close> over the reply of ListNames. An exception of a bus operation
  leaves the loop with the table as filled so far. The second debug line of the body
  reads \<open>player.name\<close> again (one more remote Get) and formats the player object, whose
  default representation (a memory address) is left out of the recorded line.
\<close>

fun reindex_loop ::
  "env \<Rightarrow> string list \<Rightarrow> MediaPlayersRegistry \<Rightarrow> effects
     \<Rightarrow> (exn + unit) \<times> MediaPlayersRegistry \<times> effects" where
  "reindex_loop E [] self fx = (Inr (), self, fx)"
| "reindex_loop E (bus_name # rest) self fx =
     (if startswith bus_name mpris_prefix then
        (let fx1 = print_debug [media_players_module, ''discovered player: '' @ bus_name] fx
         in case bus_get_object E bus_name ''/org/mpris/MediaPlayer2'' fx1 of
              (Inl e, fx2) \<Rightarrow> (Inl (DBus e), self, fx2)
            | (Inr dbus_obj, fx2) \<Rightarrow>
                (case MediaPlayer_name E (MediaPlayer dbus_obj) fx2 of
                   (Inl e, fx3) \<Rightarrow> (Inl e, self, fx3)
                 | (Inr key, fx3) \<Rightarrow>
                     (let self1 = self\<lparr>active_players :=
                                    dict_set key (MediaPlayer dbus_obj) (active_players self)\<rparr>
                      in case MediaPlayer_name E (MediaPlayer dbus_obj) fx3 of
                           (Inl e, fx4) \<Rightarrow> (Inl e, self1, fx4)
                         | (Inr nm, fx4) \<Rightarrow>
                             reindex_loop E rest self1
                               (print_debug [media_players_module,
                                  ''registered player: '' @ nm] fx4))))
      else reindex_loop E rest self fx)"

definition reindex ::
  "env \<Rightarrow> MediaPlayersRegistry \<Rightarrow> effects \<Rightarrow> (exn + unit) \<times> MediaPlayersRegistry \<times> effects" where
  "reindex E self fx =
     (let self0 = self\<lparr>active_players := []\<rparr>
      in case dbus_SessionBus E fx of
           (Inl e, fx1) \<Rightarrow> (Inl (DBus e), self0, fx1)
         | (Inr bus, fx1) \<Rightarrow>
             (case bus_get_object E ''org.freedesktop.DBus'' ''/'' fx1 of
                (Inl e, fx2) \<Rightarrow> (Inl (DBus e), self0, fx2)
              | (Inr dbusObj, fx2) \<Rightarrow>
                  (case dbus_call E (Interface dbusObj ''org.freedesktop.DBus'') ''ListNames'' []
                          (list_names E) fx2 of
                     (Inl e, fx3) \<Rightarrow> (Inl e, self0, fx3)
                   | (Inr names, fx3) \<Rightarrow> reindex_loop E names self0 fx3)))"

definition signal_update ::
  "env \<Rightarrow> string list \<Rightarrow> MediaPlayersRegistry \<Rightarrow> effects
     \<Rightarrow> (exn + unit) \<times> MediaPlayersRegistry \<times> effects" where
  "signal_update E args self fx =
     (if 0 < length args \<and> startswith (args ! 0) mpris_prefix
      then reindex E self fx
      else (Inr (), self, fx))"

definition players :: "MediaPlayersRegistry \<Rightarrow> string list" where
  "players self = map fst (active_players self)"

definition get_player :: "MediaPlayersRegistry \<Rightarrow> string \<Rightarrow> exn + MediaPlayer" where
  "get_player self nm = dict_get (active_players self) nm"

datatype MediaPlayerCommandLeaf = PlayPause | Play | Stop | Pause | Next | Previous | Quit

fun do_command ::
  "env \<Rightarrow> MediaPlayerCommandLeaf \<Rightarrow> MediaPlayer \<Rightarrow> effects \<Rightarrow> (exn + unit) \<times> effects" where
  "do_command E PlayPause p fx = dbus_call E (player p) ''PlayPause'' [] () fx"
| "do_command E Play p fx = dbus_call E (player p) ''Play'' [] () fx"
| "do_command E Stop p fx = dbus_call E (player p) ''Stop'' [] () fx"
| "do_command E Pause p fx = dbus_call E (player p) ''Pause'' [] () fx"
| "do_command E Next p fx = dbus_call E (player p) ''Next'' [] () fx"
| "do_command E Previous p fx = dbus_call E (player p) ''Previous'' [] () fx"
| "do_command E Quit p fx = dbus_call E (root p) ''Quit'' [] () fx"

definition MediaPlayerCommandsSource_get_items :: "MediaPlayerCommandLeaf list" where
  "MediaPlayerCommandsSource_get_items = [PlayPause, Play, Stop, Pause, Next, Previous, Quit]"

text \<open>
  \<open>MediaPlayerAction.__init__(self, player)\<close> looks the player up in the registry and
  names the action after it. A leaf handed to the generator is a command leaf or any
  other leaf of the host.
\<close>

record MediaPlayerAction =
  action_player :: MediaPlayer
  action_name :: string

definition MediaPlayerAction_init ::
  "MediaPlayersRegistry \<Rightarrow> string \<Rightarrow> exn + MediaPlayerAction" where
  "MediaPlayerAction_init registry nm =
     (case get_player registry nm of
        Inl e \<Rightarrow> Inl e
      | Inr p \<Rightarrow> Inr \<lparr>action_player = p, action_name = nm\<rparr>)"

datatype kupfer_leaf = CommandLeaf MediaPlayerCommandLeaf | OtherLeaf Leaf

fun actions_for_players ::
  "MediaPlayersRegistry \<Rightarrow> string list \<Rightarrow> exn + MediaPlayerAction list" where
  "actions_for_players registry [] = Inr []"
| "actions_for_players registry (nm # rest) =
     (case MediaPlayerAction_init registry nm of
        Inl e \<Rightarrow> Inl e
      | Inr a \<Rightarrow>
          (case actions_for_players registry rest of
             Inl e \<Rightarrow> Inl e
           | Inr acts \<Rightarrow> Inr (a # acts)))"

fun get_actions_for_leaf ::
  "MediaPlayersRegistry \<Rightarrow> kupfer_leaf \<Rightarrow> exn + MediaPlayerAction list" where
  "get_actions_for_leaf registry (CommandLeaf c) = actions_for_players registry (players registry)"
| "get_actions_for_leaf registry (OtherLeaf l) = Inr []"

section \<open>Concrete sessions\<close>

text \<open>
  A session in which every bus operation succeeds: no player is running, Hamster has no
  activity, the clock reads 1700000000 and the local timezone is UTC. The theorems below
  evaluate the plugins on it and on variations of it.
\<close>

definition quiet_env :: env where
  "quiet_env =
     \<lparr>session_bus_fails = None,
      get_object_fails = (\<lambda>bus_name path. None),
      call_fails = (\<lambda>i method args. None),
      list_names = [],
      property_reply = (\<lambda>dbus_obj target property_name. []),
      hamster_activities = [],
      time_time = 1700000000,
      time_timezone = 0\<rparr>"

definition no_effects :: effects where
  "no_effects = \<lparr>debug_log = [], trace = []\<rparr>"

section \<open>What a rescan of the bus finds\<close>

text \<open>
  The player object \<open>reindex\<close> builds for a bus name, and the name that player reports
  (its \<open>DesktopEntry\<close> property, read from the root interface).
\<close>

definition player_of :: "string \<Rightarrow> MediaPlayer" where
  "player_of bus_name = MediaPlayer (ProxyObject bus_name ''/org/mpris/MediaPlayer2'')"

definition player_name :: "env \<Rightarrow> string \<Rightarrow> string" where
  "player_name E bus_name =
     property_reply E (ProxyObject bus_name ''/org/mpris/MediaPlayer2'')
       ''org.mpris.MediaPlayer2'' ''DesktopEntry''"

text \<open>
  The entries a rescan comes across, in the order of the reply of ListNames: for every
  bus name that starts with 'org.mpris.MediaPlayer2.', the player's name and the player.
\<close>

definition discovered :: "env \<Rightarrow> string list \<Rightarrow> (string \<times> MediaPlayer) list" where
  "discovered E names =
     map (\<lambda>bus_name. (player_name E bus_name, player_of bus_name))
       (filter (\<lambda>bus_name. startswith bus_name mpris_prefix) names)"

text \<open>
  Two sessions with players. In the first, two instances of one player are running under
  two bus names and report the same name. In the second, two different players are
  running, each reporting the part of its bus name after the prefix.
\<close>

definition two_vlc_env :: env where
  "two_vlc_env =
     quiet_env\<lparr>list_names := [''org.freedesktop.DBus'', ''org.mpris.MediaPlayer2.vlc'',
                               ''org.mpris.MediaPlayer2.vlc.instance7''],
               property_reply := (\<lambda>dbus_obj target property_name. ''vlc'')\<rparr>"

definition two_players_env :: env where
  "two_players_env =
     quiet_env\<lparr>list_names := [''org.freedesktop.DBus'', ''org.mpris.MediaPlayer2.vlc'',
                               ''org.mpris.MediaPlayer2.mpv''],
               property_reply := (\<lambda>dbus_obj target property_name.
                  case dbus_obj of ProxyObject bus_name path \<Rightarrow> drop 23 bus_name)\<rparr>"

section \<open>What the connection helpers return and leave behind\<close>

lemma get_hamster_result:
  "fst (get_hamster E fx) =
     (if session_bus_fails E = None \<and>
         get_object_fails E ''org.gnome.Hamster'' ''/org/gnome/Hamster'' = None
      then Some (Interface (ProxyObject ''org.gnome.Hamster'' ''/org/gnome/Hamster'')
                   ''org.gnome.Hamster'')
      else None)"
  by (simp add: get_hamster_def dbus_SessionBus_def bus_get_object_def split: option.splits)

lemma get_hamster_trace:
  "trace (snd (get_hamster E fx)) =
     trace fx @ (if session_bus_fails E = None
                 then [EvSessionBus, EvGetObject ''org.gnome.Hamster'' ''/org/gnome/Hamster'']
                 else [EvSessionBus])"
  by (simp add: get_hamster_def dbus_SessionBus_def bus_get_object_def emit_def print_debug_def
      split: option.splits)

lemma get_hamster_log:
  "debug_log (snd (get_hamster E fx)) =
     debug_log fx @
       (case session_bus_fails E of
          Some err \<Rightarrow> [[err]]
        | None \<Rightarrow>
            (case get_object_fails E ''org.gnome.Hamster'' ''/org/gnome/Hamster'' of
               Some err \<Rightarrow> [[err]]
             | None \<Rightarrow> []))"
  by (simp add: get_hamster_def dbus_SessionBus_def bus_get_object_def emit_def print_debug_def
      split: option.splits)

lemma get_hotot_result:
  "fst (get_hotot E fx) =
     (if session_bus_fails E = None \<and>
         get_object_fails E ''org.hotot.service'' ''/org/hotot/service'' = None
      then Some (Interface (ProxyObject ''org.hotot.service'' ''/org/hotot/service'')
                   ''org.hotot.service'')
      else None)"
  by (simp add: get_hotot_def dbus_SessionBus_def bus_get_object_def split: option.splits)

lemma get_hotot_trace:
  "trace (snd (get_hotot E fx)) =
     trace fx @ (if session_bus_fails E = None
                 then [EvSessionBus, EvGetObject ''org.hotot.service'' ''/org/hotot/service'']
                 else [EvSessionBus])"
  by (simp add: get_hotot_def dbus_SessionBus_def bus_get_object_def emit_def print_debug_def
      split: option.splits)

lemma get_hotot_log:
  "debug_log (snd (get_hotot E fx)) =
     debug_log fx @
       (case session_bus_fails E of
          Some err \<Rightarrow> [[err]]
        | None \<Rightarrow>
            (case get_object_fails E ''org.hotot.service'' ''/org/hotot/service'' of
               Some err \<Rightarrow> [[err]]
             | None \<Rightarrow> []))"
  by (simp add: get_hotot_def dbus_SessionBus_def bus_get_object_def emit_def print_debug_def
      split: option.splits)

lemma dbus_call_trace:
  "trace (snd (dbus_call E i m args reply fx)) = trace fx @ [EvCall i m args]"
  by (simp add: dbus_call_def emit_def split: option.splits)

lemma dbus_call_log:
  "debug_log (snd (dbus_call E i m args reply fx)) = debug_log fx"
  by (simp add: dbus_call_def emit_def split: option.splits)

lemma print_debug_trace: "trace (print_debug l fx) = trace fx"
  by (simp add: print_debug_def)

section \<open>Text replacement and activity leaves\<close>

lemma str_replace_length:
  "length (str_replace c [b, c] s) = length s + count_list s c"
  by (induction s) simp_all

lemma str_replace_unchanged:
  "(str_replace c [b, c] s = s) = (c \<notin> set s)"
proof
  assume "str_replace c [b, c] s = s"
  then have "length (str_replace c [b, c] s) = length s" by simp
  then have "count_list s c = 0" by (simp add: str_replace_length)
  then show "c \<notin> set s" by (simp add: count_list_0_iff)
next
  assume "c \<notin> set s"
  then show "str_replace c [b, c] s = s" by (induction s) auto
qed

lemma activity_leaves_names:
  "map leaf_name (activity_leaves acts) =
     map (\<lambda>act. if snd act \<noteq> [] then fst act @ ''@'' @ snd act else fst act) acts"
  by (induction acts) (simp_all add: Let_def ActivityLeaf_def)

lemma activity_leaves_objects:
  "map leaf_object (activity_leaves acts) = map leaf_name (activity_leaves acts)"
  by (induction acts) (simp_all add: Let_def ActivityLeaf_def)

lemma activity_leaves_length: "length (activity_leaves acts) = length acts"
  by (induction acts) (simp_all add: Let_def)

section \<open>The table of active players\<close>

lemma dict_set_map_of: "map_of (dict_set k v d) = (map_of d)(k \<mapsto> v)"
  by (induction d) (auto simp: fun_eq_iff)

lemma dict_set_keys: "fst ` set (dict_set k v d) = insert k (fst ` set d)"
  by (induction d) auto

lemma dict_set_distinct: "distinct (map fst d) \<Longrightarrow> distinct (map fst (dict_set k v d))"
  by (induction d) (auto simp: dict_set_keys)

lemma dict_set_entries: "set (dict_set k v d) \<subseteq> insert (k, v) (set d)"
  by (induction d) auto

lemma map_add_rev_Cons: "m(k \<mapsto> v) ++ map_of (rev ds) = m ++ map_of (rev ((k, v) # ds))"
proof -
  have "m ++ map_of (rev ((k, v) # ds)) = m ++ ([k \<mapsto> v] ++ map_of (rev ds))"
    by simp
  also have "\<dots> = (m ++ [k \<mapsto> v]) ++ map_of (rev ds)"
    by (simp only: map_add_assoc)
  also have "m ++ [k \<mapsto> v] = m(k \<mapsto> v)"
    by simp
  finally show ?thesis by simp
qed

lemma reindex_loop_skip:
  "\<not> startswith a mpris_prefix \<Longrightarrow>
   reindex_loop E (a # names) self fx = reindex_loop E names self fx"
  by simp

lemma reindex_loop_step:
  assumes "startswith a mpris_prefix"
  shows "(\<exists>e fx'. reindex_loop E (a # names) self fx = (Inl e, self, fx')
            \<and> length (trace fx) \<le> length (trace fx'))
       \<or> (\<exists>fx'. reindex_loop E (a # names) self fx =
              reindex_loop E names
                (self\<lparr>active_players :=
                   dict_set (player_name E a) (player_of a) (active_players self)\<rparr>) fx'
            \<and> length (trace fx) \<le> length (trace fx'))"
proof (cases "get_object_fails E a ''/org/mpris/MediaPlayer2''")
  case (Some err)
  with assms show ?thesis
    by (simp add: bus_get_object_def Let_def emit_def print_debug_def)
next
  case None
  note obj = this
  show ?thesis
  proof (cases "call_fails E
      (Interface (ProxyObject a ''/org/mpris/MediaPlayer2'') ''org.freedesktop.DBus.Properties'')
      ''Get'' [Str ''org.mpris.MediaPlayer2'', Str ''DesktopEntry'']")
    case (Some err)
    with assms obj show ?thesis
      by (simp add: bus_get_object_def MediaPlayer_name_def get_root_property_def dbus_call_def
          Let_def emit_def print_debug_def)
  next
    case None
    with assms obj show ?thesis
      apply (intro disjI2 exI conjI)
       apply (simp add: bus_get_object_def MediaPlayer_name_def get_root_property_def
          dbus_call_def Let_def player_name_def player_of_def)
      apply (simp add: emit_def print_debug_def)
      done
  qed
qed

lemma discovered_Cons:
  "discovered E (a # names) =
     (if startswith a mpris_prefix then (player_name E a, player_of a) # discovered E names
      else discovered E names)"
  by (simp add: discovered_def)

lemma reindex_loop_table:
  "fst (reindex_loop E names self fx) = Inr () \<Longrightarrow>
   map_of (active_players (fst (snd (reindex_loop E names self fx)))) =
     map_of (active_players self) ++ map_of (rev (discovered E names))"
proof (induction names arbitrary: self fx)
  case Nil
  then show ?case by (simp add: discovered_def)
next
  case (Cons a names)
  show ?case
  proof (cases "startswith a mpris_prefix")
    case False
    with Cons.prems have "fst (reindex_loop E names self fx) = Inr ()"
      by (simp only: reindex_loop_skip [OF False])
    from Cons.IH [OF this] False show ?thesis
      by (simp add: reindex_loop_skip [OF False] discovered_Cons del: reindex_loop.simps)
  next
    case True
    from reindex_loop_step [OF True, of E names self fx] show ?thesis
    proof (elim disjE exE conjE)
      fix e fx'
      assume "reindex_loop E (a # names) self fx = (Inl e, self, fx')"
      with Cons.prems show ?thesis by (simp only: fst_conv sum.distinct)
    next
      fix fx'
      assume eq: "reindex_loop E (a # names) self fx =
              reindex_loop E names
                (self\<lparr>active_players :=
                   dict_set (player_name E a) (player_of a) (active_players self)\<rparr>) fx'"
      from Cons.prems have "fst (reindex_loop E names
                (self\<lparr>active_players :=
                   dict_set (player_name E a) (player_of a) (active_players self)\<rparr>) fx')
              = Inr ()"
        by (simp only: eq)
      from Cons.IH [OF this]
      have "map_of (active_players (fst (snd (reindex_loop E (a # names) self fx)))) =
              map_of (dict_set (player_name E a) (player_of a) (active_players self))
                ++ map_of (rev (discovered E names))"
        unfolding eq by simp
      also have "\<dots> = (map_of (active_players self))(player_name E a \<mapsto> player_of a)
                ++ map_of (rev (discovered E names))"
        by (simp only: dict_set_map_of)
      also have "\<dots> = map_of (active_players self)
                 ++ map_of (rev ((player_name E a, player_of a) # discovered E names))"
        by (rule map_add_rev_Cons)
      finally show ?thesis using True by (simp only: discovered_Cons if_True)
    qed
  qed
qed

lemma reindex_loop_distinct:
  "distinct (map fst (active_players self)) \<Longrightarrow>
   distinct (map fst (active_players (fst (snd (reindex_loop E names self fx)))))"
proof (induction names arbitrary: self fx)
  case Nil
  then show ?case by simp
next
  case (Cons a names)
  show ?case
  proof (cases "startswith a mpris_prefix")
    case False
    from Cons.IH [OF Cons.prems] False show ?thesis
      by (simp only: reindex_loop_skip [OF False])
  next
    case True
    from reindex_loop_step [OF True, of E names self fx] show ?thesis
    proof (elim disjE exE conjE)
      fix e fx'
      assume "reindex_loop E (a # names) self fx = (Inl e, self, fx')"
      with Cons.prems show ?thesis by (simp only: fst_conv snd_conv)
    next
      fix fx'
      assume eq: "reindex_loop E (a # names) self fx =
              reindex_loop E names
                (self\<lparr>active_players :=
                   dict_set (player_name E a) (player_of a) (active_players self)\<rparr>) fx'"
      have "distinct (map fst (active_players
               (self\<lparr>active_players :=
                   dict_set (player_name E a) (player_of a) (active_players self)\<rparr>)))"
        using Cons.prems by (simp add: dict_set_distinct)
      from Cons.IH [OF this] show ?thesis by (simp only: eq)
    qed
  qed
qed

lemma reindex_loop_entries:
  "set (active_players (fst (snd (reindex_loop E names self fx))))
     \<subseteq> set (active_players self) \<union> set (discovered E names)"
proof (induction names arbitrary: self fx)
  case Nil
  then show ?case by simp
next
  case (Cons a names)
  show ?case
  proof (cases "startswith a mpris_prefix")
    case False
    from Cons.IH [of self fx] False show ?thesis
      by (simp add: reindex_loop_skip [OF False] discovered_Cons del: reindex_loop.simps)
  next
    case True
    from reindex_loop_step [OF True, of E names self fx] show ?thesis
    proof (elim disjE exE conjE)
      fix e fx'
      assume "reindex_loop E (a # names) self fx = (Inl e, self, fx')"
      then show ?thesis by (simp del: reindex_loop.simps)
    next
      fix fx'
      assume eq: "reindex_loop E (a # names) self fx =
              reindex_loop E names
                (self\<lparr>active_players :=
                   dict_set (player_name E a) (player_of a) (active_players self)\<rparr>) fx'"
      have "set (active_players (fst (snd (reindex_loop E (a # names) self fx))))
              \<subseteq> set (dict_set (player_name E a) (player_of a) (active_players self))
                  \<union> set (discovered E names)"
        using Cons.IH [of "self\<lparr>active_players :=
                   dict_set (player_name E a) (player_of a) (active_players self)\<rparr>" fx']
        by (simp add: eq del: reindex_loop.simps)
      also have "\<dots> \<subseteq> insert (player_name E a, player_of a) (set (active_players self))
                  \<union> set (discovered E names)"
        using dict_set_entries [of "player_name E a" "player_of a" "active_players self"]
        by (rule Un_mono) (rule subset_refl)
      finally show ?thesis using True by (simp add: discovered_Cons del: reindex_loop.simps)
    qed
  qed
qed

lemma reindex_loop_trace:
  "length (trace fx) \<le> length (trace (snd (snd (reindex_loop E names self fx))))"
proof (induction names arbitrary: self fx)
  case Nil
  then show ?case by simp
next
  case (Cons a names)
  show ?case
  proof (cases "startswith a mpris_prefix")
    case False
    from Cons show ?thesis
      by (simp only: reindex_loop_skip [OF False])
  next
    case True
    from reindex_loop_step [OF True, of E names self fx] show ?thesis
    proof (elim disjE exE conjE)
      fix e fx'
      assume "reindex_loop E (a # names) self fx = (Inl e, self, fx')"
        and "length (trace fx) \<le> length (trace fx')"
      then show ?thesis by (simp del: reindex_loop.simps)
    next
      fix fx'
      assume eq: "reindex_loop E (a # names) self fx =
              reindex_loop E names
                (self\<lparr>active_players :=
                   dict_set (player_name E a) (player_of a) (active_players self)\<rparr>) fx'"
        and le: "length (trace fx) \<le> length (trace fx')"
      from le Cons show ?thesis unfolding eq by (rule order_trans)
    qed
  qed
qed

lemma reindex_cases:
  "(\<exists>e fx'. reindex E self fx = (Inl e, self\<lparr>active_players := []\<rparr>, fx')
       \<and> length (trace fx) < length (trace fx'))
   \<or> (\<exists>fx'. reindex E self fx =
           reindex_loop E (list_names E) (self\<lparr>active_players := []\<rparr>) fx'
       \<and> length (trace fx) < length (trace fx'))"
proof (cases "session_bus_fails E")
  case (Some err)
  then show ?thesis
    by (simp add: reindex_def dbus_SessionBus_def emit_def)
next
  case None
  note bus = this
  show ?thesis
  proof (cases "get_object_fails E ''org.freedesktop.DBus'' ''/''")
    case (Some err)
    with bus show ?thesis
      by (simp add: reindex_def dbus_SessionBus_def bus_get_object_def emit_def)
  next
    case None
    note obj = this
    show ?thesis
    proof (cases "call_fails E
        (Interface (ProxyObject ''org.freedesktop.DBus'' ''/'') ''org.freedesktop.DBus'')
        ''ListNames'' []")
      case (Some err)
      with bus obj show ?thesis
        by (simp add: reindex_def dbus_SessionBus_def bus_get_object_def dbus_call_def emit_def)
    next
      case None
      with bus obj show ?thesis
        apply (intro disjI2 exI conjI)
         apply (simp add: reindex_def dbus_SessionBus_def bus_get_object_def dbus_call_def)
        apply (simp add: emit_def)
        done
    qed
  qed
qed

lemma reindex_trace: "length (trace fx) < length (trace (snd (snd (reindex E self fx))))"
  using reindex_cases [of E self fx]
proof (elim disjE exE conjE)
  fix e fx'
  assume "reindex E self fx = (Inl e, self\<lparr>active_players := []\<rparr>, fx')"
    and "length (trace fx) < length (trace fx')"
  then show ?thesis by simp
next
  fix fx'
  assume eq: "reindex E self fx =
           reindex_loop E (list_names E) (self\<lparr>active_players := []\<rparr>) fx'"
    and lt: "length (trace fx) < length (trace fx')"
  from lt reindex_loop_trace [of fx' E "list_names E" "self\<lparr>active_players := []\<rparr>"]
  show ?thesis unfolding eq by (rule less_le_trans)
qed

lemma reindex_loop_succeeds:
  "\<forall>n p. get_object_fails E n p = None \<Longrightarrow> \<forall>i m a. call_fails E i m a = None \<Longrightarrow>
   fst (reindex_loop E names self fx) = Inr ()"
proof (induction names arbitrary: self fx)
  case Nil
  then show ?case by simp
next
  case (Cons a names)
  then show ?case
    by (simp add: bus_get_object_def MediaPlayer_name_def get_root_property_def dbus_call_def
        Let_def)
qed

lemma reindex_succeeds:
  "session_bus_fails E = None \<Longrightarrow> \<forall>n p. get_object_fails E n p = None \<Longrightarrow>
   \<forall>i m a. call_fails E i m a = None \<Longrightarrow> fst (reindex E self fx) = Inr ()"
  by (simp add: reindex_def dbus_SessionBus_def bus_get_object_def dbus_call_def
      reindex_loop_succeeds)

lemma reindex_table:
  "fst (reindex E self fx) = Inr () \<Longrightarrow>
   map_of (active_players (fst (snd (reindex E self fx)))) =
     map_of (rev (discovered E (list_names E)))"
  using reindex_cases [of E self fx]
proof (elim disjE exE conjE)
  fix e fx'
  assume "fst (reindex E self fx) = Inr ()"
    and "reindex E self fx = (Inl e, self\<lparr>active_players := []\<rparr>, fx')"
  then show ?thesis by simp
next
  fix fx'
  assume ok: "fst (reindex E self fx) = Inr ()"
    and eq: "reindex E self fx =
           reindex_loop E (list_names E) (self\<lparr>active_players := []\<rparr>) fx'"
  from ok have "fst (reindex_loop E (list_names E) (self\<lparr>active_players := []\<rparr>) fx') = Inr ()"
    by (simp only: eq)
  from reindex_loop_table [OF this] show ?thesis
    unfolding eq by simp
qed

lemma reindex_distinct:
  "distinct (map fst (active_players (fst (snd (reindex E self fx)))))"
  using reindex_cases [of E self fx]
proof (elim disjE exE conjE)
  fix e fx'
  assume "reindex E self fx = (Inl e, self\<lparr>active_players := []\<rparr>, fx')"
  then show ?thesis by simp
next
  fix fx'
  assume eq: "reindex E self fx =
           reindex_loop E (list_names E) (self\<lparr>active_players := []\<rparr>) fx'"
  have "distinct (map fst (active_players (self\<lparr>active_players := []\<rparr>)))"
    by simp
  from reindex_loop_distinct [OF this] show ?thesis
    unfolding eq .
qed

lemma reindex_entries:
  "set (active_players (fst (snd (reindex E self fx)))) \<subseteq> set (discovered E (list_names E))"
  using reindex_cases [of E self fx]
proof (elim disjE exE conjE)
  fix e fx'
  assume "reindex E self fx = (Inl e, self\<lparr>active_players := []\<rparr>, fx')"
  then show ?thesis by simp
next
  fix fx'
  assume eq: "reindex E self fx =
           reindex_loop E (list_names E) (self\<lparr>active_players := []\<rparr>) fx'"
  from reindex_loop_entries [of E "list_names E" "self\<lparr>active_players := []\<rparr>" fx']
  show ?thesis
    unfolding eq by simp
qed

lemma two_players_discovered:
  "discovered two_players_env (list_names two_players_env)
     = [(''vlc'', MediaPlayer (ProxyObject ''org.mpris.MediaPlayer2.vlc''
                                ''/org/mpris/MediaPlayer2'')),
        (''mpv'', MediaPlayer (ProxyObject ''org.mpris.MediaPlayer2.mpv''
                                ''/org/mpris/MediaPlayer2''))]"
  by (simp add: discovered_def two_players_env_def quiet_env_def startswith_def mpris_prefix_def
      player_name_def player_of_def)

lemma actions_for_players_ok:
  "set names \<subseteq> fst ` set (active_players registry) \<Longrightarrow>
   \<exists>acts. actions_for_players registry names = Inr acts
     \<and> map action_name acts = names
     \<and> (\<forall>a\<in>set acts. get_player registry (action_name a) = Inr (action_player a))"
proof (induction names)
  case Nil
  then show ?case by simp
next
  case (Cons nm names)
  then obtain acts where acts: "actions_for_players registry names = Inr acts"
      "map action_name acts = names"
      "\<forall>a\<in>set acts. get_player registry (action_name a) = Inr (action_player a)"
    by auto
  from Cons.prems have "nm \<in> fst ` set (active_players registry)" by simp
  then obtain p where p: "map_of (active_players registry) nm = Some p"
    by (cases "map_of (active_players registry) nm") (simp_all add: map_of_eq_None_iff)
  then have "get_player registry nm = Inr p"
    by (simp add: get_player_def dict_get_def)
  with acts show ?case
    by (simp add: MediaPlayerAction_init_def)
qed

lemma get_player_registered:
  assumes "nm \<in> set (players registry)"
  shows "\<exists>p. get_player registry nm = Inr p \<and> (nm, p) \<in> set (active_players registry)"
proof -
  from assms have "nm \<in> fst ` set (active_players registry)"
    by (simp add: players_def)
  then obtain p where p: "map_of (active_players registry) nm = Some p"
    by (cases "map_of (active_players registry) nm") (simp_all add: map_of_eq_None_iff)
  then have "(nm, p) \<in> set (active_players registry)"
    by (rule map_of_SomeD)
  with p show ?thesis
    by (simp add: get_player_def dict_get_def)
qed

section \<open>The claims\<close>

text \<open>
  C1. The claim: while the target application is not reachable, an action's activate
  returns nothing and only logs, and in particular \<open>Toggle.activate\<close>,
  \<open>StartActivity.activate\<close> and \<open>ActivitiesSource.get_items\<close> do not raise when
  \<open>get_hamster()\<close> yields None. The code does otherwise: on a session whose bus cannot
  be reached \<open>get_hamster\<close> yields None, and each of the three then looks an attribute up
  on None, so an AttributeError leaves the call.
\<close>

theorem activate_without_hamster_raises:
  "fst (get_hamster (quiet_env\<lparr>session_bus_fails := Some ''no session bus''\<rparr>) no_effects)
     = None
   \<and> fst (Toggle_activate (quiet_env\<lparr>session_bus_fails := Some ''no session bus''\<rparr>)
          \<lparr>app_id = ''hamster-indicator'', app_name = ''Hamster''\<rparr> no_effects)
     = Inl (AttributeError ''NoneType object has no attribute Toggle'')
   \<and> fst (StartActivity_activate (quiet_env\<lparr>session_bus_fails := Some ''no session bus''\<rparr>)
          (ActivityLeaf ''work'') no_effects)
     = Inl (AttributeError ''NoneType object has no attribute AddFact'')
   \<and> fst (ActivitiesSource_get_items
          (quiet_env\<lparr>session_bus_fails := Some ''no session bus''\<rparr>) no_effects)
     = Inl (AttributeError ''NoneType object has no attribute GetActivities'')"
  by (simp add: Toggle_activate_def StartActivity_activate_def ActivitiesSource_get_items_def
      get_hamster_def dbus_SessionBus_def quiet_env_def none_attribute_def)

text \<open>
  C2. The claim: \<open>SendUpdate.activate\<close> forwards the leaf's text unchanged as the single
  argument of the remote \<open>update_status\<close> call. The code forwards
  \<open>leaf.object.replace('"', '\\"')\<close>: on the text consisting of one double quote the
  argument of the call is a backslash followed by the double quote, which is not the
  leaf's text.
\<close>

theorem SendUpdate_changes_quoted_text:
  "trace (snd (SendUpdate_activate quiet_env
                 \<lparr>leaf_object = [CHR 0x22], leaf_name = [CHR 0x22]\<rparr> no_effects))
     = [EvSessionBus, EvGetObject ''org.hotot.service'' ''/org/hotot/service'',
        EvCall (Interface (ProxyObject ''org.hotot.service'' ''/org/hotot/service'')
                  ''org.hotot.service'')
          ''update_status'' [Str [CHR 0x5C, CHR 0x22]]]
   \<and> [CHR 0x5C, CHR 0x22] \<noteq> leaf_object \<lparr>leaf_object = [CHR 0x22], leaf_name = [CHR 0x22]\<rparr>"
  by (simp add: SendUpdate_activate_def get_hotot_def dbus_SessionBus_def bus_get_object_def
      dbus_call_def emit_def print_debug_def quiet_env_def no_effects_def Let_def)

text \<open>
  C2, as the code has it. When the Hotot connection succeeds, \<open>SendUpdate.activate\<close> makes
  exactly one remote call after the connection attempt, \<open>update_status\<close>, whose single
  argument is the leaf's text with a backslash put before every double quote; that
  argument is the leaf's text itself exactly when the text holds no double quote.
\<close>

theorem SendUpdate_forwards_escaped_text:
  assumes "fst (get_hotot E fx) = Some hotot"
  shows "trace (snd (SendUpdate_activate E leaf fx)) =
           trace (snd (get_hotot E fx)) @
             [EvCall hotot ''update_status''
                [Str (str_replace (CHR 0x22) [CHR 0x5C, CHR 0x22] (leaf_object leaf))]]
         \<and> (str_replace (CHR 0x22) [CHR 0x5C, CHR 0x22] (leaf_object leaf) = leaf_object leaf)
           = (CHR 0x22 \<notin> set (leaf_object leaf))"
proof -
  define escaped where
    "escaped = str_replace (CHR 0x22) [CHR 0x5C, CHR 0x22] (leaf_object leaf)"
  define fx2 where "fx2 = print_debug [hotot_module, ''SendUpdate: '' @ escaped]
                            (print_debug [hotot_module, leaf_object leaf] fx)"
  have unfolded: "SendUpdate_activate E leaf fx =
          (case get_hotot E fx2 of
             (None, fx3) \<Rightarrow> (Inl (none_attribute ''update_status''), fx3)
           | (Some hotot, fx3) \<Rightarrow> dbus_call E hotot ''update_status'' [Str escaped] () fx3)"
    unfolding SendUpdate_activate_def Let_def fx2_def escaped_def by (rule refl)
  have same: "fst (get_hotot E fx2) = Some hotot"
    using assms by (simp add: get_hotot_result)
  have traces: "trace (snd (get_hotot E fx2)) = trace (snd (get_hotot E fx))"
    by (simp add: get_hotot_trace fx2_def print_debug_trace)
  obtain r fx3 where call: "get_hotot E fx2 = (r, fx3)"
    by (cases "get_hotot E fx2")
  with same traces have r: "r = Some hotot" and t: "trace fx3 = trace (snd (get_hotot E fx))"
    by simp_all
  have "SendUpdate_activate E leaf fx = dbus_call E hotot ''update_status'' [Str escaped] () fx3"
    by (simp add: unfolded call r)
  then have "trace (snd (SendUpdate_activate E leaf fx)) =
           trace (snd (get_hotot E fx)) @ [EvCall hotot ''update_status'' [Str escaped]]"
    by (simp add: dbus_call_trace t)
  then show ?thesis
    by (simp add: escaped_def str_replace_unchanged)
qed

theorem SendUpdate_forwards_escaped_text_witness:
  "fst (get_hotot quiet_env no_effects) =
     Some (Interface (ProxyObject ''org.hotot.service'' ''/org/hotot/service'')
             ''org.hotot.service'')
   \<and> trace (snd (SendUpdate_activate quiet_env
                   \<lparr>leaf_object = [CHR ''a'', CHR 0x22], leaf_name = ''a''\<rparr> no_effects))
     = [EvSessionBus, EvGetObject ''org.hotot.service'' ''/org/hotot/service'',
        EvCall (Interface (ProxyObject ''org.hotot.service'' ''/org/hotot/service'')
                  ''org.hotot.service'')
          ''update_status'' [Str [CHR ''a'', CHR 0x5C, CHR 0x22]]]"
proof -
  have h: "fst (get_hotot quiet_env no_effects) =
     Some (Interface (ProxyObject ''org.hotot.service'' ''/org/hotot/service'')
             ''org.hotot.service'')"
    by (simp add: get_hotot_result quiet_env_def)
  show ?thesis
    using h SendUpdate_forwards_escaped_text [OF h,
        of "\<lparr>leaf_object = [CHR ''a'', CHR 0x22], leaf_name = ''a''\<rparr>"]
    by (simp add: get_hotot_trace quiet_env_def no_effects_def)
qed

text \<open>
  C3. Each connection helper (\<open>get_hamster\<close>, \<open>get_hotot\<close>) makes exactly one connection
  attempt per call: the bus operations it adds to the trace are one \<open>SessionBus()\<close> and,
  when that succeeded, one \<open>get_object\<close> of its service, and nothing more. If neither
  raised a DBusException it returns the interface of the service and writes no log line;
  otherwise it returns None and the debug log is the old one with exactly one line more.
\<close>

theorem connection_helpers_one_attempt:
  "fst (get_hamster E fx) =
     (if session_bus_fails E = None \<and>
         get_object_fails E ''org.gnome.Hamster'' ''/org/gnome/Hamster'' = None
      then Some (Interface (ProxyObject ''org.gnome.Hamster'' ''/org/gnome/Hamster'')
                   ''org.gnome.Hamster'')
      else None)
   \<and> count_list (trace (snd (get_hamster E fx))) EvSessionBus
       = count_list (trace fx) EvSessionBus + 1
   \<and> trace (snd (get_hamster E fx)) =
       trace fx @ (if session_bus_fails E = None
                   then [EvSessionBus, EvGetObject ''org.gnome.Hamster'' ''/org/gnome/Hamster'']
                   else [EvSessionBus])
   \<and> length (debug_log (snd (get_hamster E fx))) =
       length (debug_log fx) + (if fst (get_hamster E fx) = None then 1 else 0)
   \<and> take (length (debug_log fx)) (debug_log (snd (get_hamster E fx))) = debug_log fx
   \<and> fst (get_hotot E fx) =
     (if session_bus_fails E = None \<and>
         get_object_fails E ''org.hotot.service'' ''/org/hotot/service'' = None
      then Some (Interface (ProxyObject ''org.hotot.service'' ''/org/hotot/service'')
                   ''org.hotot.service'')
      else None)
   \<and> count_list (trace (snd (get_hotot E fx))) EvSessionBus
       = count_list (trace fx) EvSessionBus + 1
   \<and> trace (snd (get_hotot E fx)) =
       trace fx @ (if session_bus_fails E = None
                   then [EvSessionBus, EvGetObject ''org.hotot.service'' ''/org/hotot/service'']
                   else [EvSessionBus])
   \<and> length (debug_log (snd (get_hotot E fx))) =
       length (debug_log fx) + (if fst (get_hotot E fx) = None then 1 else 0)
   \<and> take (length (debug_log fx)) (debug_log (snd (get_hotot E fx))) = debug_log fx"
proof -
  have hamster: "length (debug_log (snd (get_hamster E fx))) =
       length (debug_log fx) + (if fst (get_hamster E fx) = None then 1 else 0)"
    by (simp add: get_hamster_log get_hamster_result split: option.splits)
  have hotot: "length (debug_log (snd (get_hotot E fx))) =
       length (debug_log fx) + (if fst (get_hotot E fx) = None then 1 else 0)"
    by (simp add: get_hotot_log get_hotot_result split: option.splits)
  show ?thesis
    using hamster hotot
    by (simp add: get_hamster_result get_hamster_trace get_hamster_log
        get_hotot_result get_hotot_trace get_hotot_log)
qed

text \<open>
  C4. The claim: after every call to \<open>reindex\<close> the table holds exactly the players whose
  current bus names start with 'org.mpris.MediaPlayer2.', keyed by player name. The
  table has one entry per player name: with two instances of one player on the bus,
  under two bus names that both start with the prefix and both report the name 'vlc',
  \<open>reindex\<close> returns normally and the table holds one player, the second instance.
\<close>

theorem reindex_keeps_one_player_per_name:
  "fst (reindex two_vlc_env \<lparr>active_players = []\<rparr> no_effects) = Inr ()
   \<and> filter (\<lambda>bus_name. startswith bus_name ''org.mpris.MediaPlayer2.'')
        (list_names two_vlc_env)
     = [''org.mpris.MediaPlayer2.vlc'', ''org.mpris.MediaPlayer2.vlc.instance7'']
   \<and> active_players (fst (snd (reindex two_vlc_env \<lparr>active_players = []\<rparr> no_effects)))
     = [(''vlc'', MediaPlayer (ProxyObject ''org.mpris.MediaPlayer2.vlc.instance7''
                                 ''/org/mpris/MediaPlayer2''))]
   \<and> MediaPlayer (ProxyObject ''org.mpris.MediaPlayer2.vlc'' ''/org/mpris/MediaPlayer2'')
       \<notin> snd ` set (active_players
                 (fst (snd (reindex two_vlc_env \<lparr>active_players = []\<rparr> no_effects))))"
  by (simp add: reindex_def dbus_SessionBus_def bus_get_object_def dbus_call_def
      MediaPlayer_name_def get_root_property_def Let_def
      two_vlc_env_def quiet_env_def startswith_def mpris_prefix_def)

text \<open>
  C4, as the code has it. After every call to \<open>reindex\<close> the table is rebuilt from
  scratch: each entry is the name and the player of a current bus name that starts with
  'org.mpris.MediaPlayer2.', whatever the table held before, and no name is keyed twice.
  When the call returns normally, looking a name up in the table gives the player of the
  last bus name in the reply of ListNames that reports this name; and when the players
  found report pairwise different names, the table holds exactly these players, keyed by
  player name.
\<close>

theorem reindex_rebuilds_table:
  "set (active_players (fst (snd (reindex E self fx)))) \<subseteq> set (discovered E (list_names E))
   \<and> distinct (map fst (active_players (fst (snd (reindex E self fx)))))
   \<and> (fst (reindex E self fx) = Inr () \<longrightarrow>
        map_of (active_players (fst (snd (reindex E self fx)))) =
          map_of (rev (discovered E (list_names E))))
   \<and> (fst (reindex E self fx) = Inr () \<and> distinct (map fst (discovered E (list_names E))) \<longrightarrow>
        set (active_players (fst (snd (reindex E self fx)))) =
          set (discovered E (list_names E)))"
proof -
  have "set (active_players (fst (snd (reindex E self fx)))) = set (discovered E (list_names E))"
    if ok: "fst (reindex E self fx) = Inr ()"
      and d: "distinct (map fst (discovered E (list_names E)))"
  proof -
    from d have "distinct (map fst (rev (discovered E (list_names E))))"
      by (simp add: rev_map [symmetric])
    with reindex_distinct [of E self fx] reindex_table [OF ok]
    have "set (active_players (fst (snd (reindex E self fx))))
            = set (rev (discovered E (list_names E)))"
      by (simp only: map_of_inject_set)
    then show ?thesis by simp
  qed
  with reindex_entries [of E self fx] reindex_distinct [of E self fx] reindex_table [of E self fx]
  show ?thesis by (intro conjI impI) simp_all
qed

theorem reindex_rebuilds_table_witness:
  "fst (reindex two_players_env
          \<lparr>active_players = [(''old'', MediaPlayer (ProxyObject ''org.mpris.MediaPlayer2.old''
                                                      ''/org/mpris/MediaPlayer2''))]\<rparr>
          no_effects) = Inr ()
   \<and> distinct (map fst (discovered two_players_env (list_names two_players_env)))
   \<and> set (active_players (fst (snd (reindex two_players_env
          \<lparr>active_players = [(''old'', MediaPlayer (ProxyObject ''org.mpris.MediaPlayer2.old''
                                                      ''/org/mpris/MediaPlayer2''))]\<rparr>
          no_effects))))
     = {(''vlc'', MediaPlayer (ProxyObject ''org.mpris.MediaPlayer2.vlc''
                                ''/org/mpris/MediaPlayer2'')),
        (''mpv'', MediaPlayer (ProxyObject ''org.mpris.MediaPlayer2.mpv''
                                ''/org/mpris/MediaPlayer2''))}"
proof -
  let ?reg = "\<lparr>active_players = [(''old'', MediaPlayer (ProxyObject ''org.mpris.MediaPlayer2.old''
                                                      ''/org/mpris/MediaPlayer2''))]\<rparr>"
  have ok: "fst (reindex two_players_env ?reg no_effects) = Inr ()"
    by (rule reindex_succeeds) (simp_all add: two_players_env_def quiet_env_def)
  have d: "distinct (map fst (discovered two_players_env (list_names two_players_env)))"
    by (simp add: two_players_discovered)
  from reindex_rebuilds_table [of two_players_env ?reg no_effects]
  have "fst (reindex two_players_env ?reg no_effects) = Inr ()
          \<and> distinct (map fst (discovered two_players_env (list_names two_players_env)))
        \<longrightarrow> set (active_players (fst (snd (reindex two_players_env ?reg no_effects))))
            = set (discovered two_players_env (list_names two_players_env))"
    by (elim conjE)
  with ok d have "set (active_players (fst (snd (reindex two_players_env ?reg no_effects))))
            = set (discovered two_players_env (list_names two_players_env))"
    by (simp only: simp_thms)
  then have "set (active_players (fst (snd (reindex two_players_env ?reg no_effects))))
     = {(''vlc'', MediaPlayer (ProxyObject ''org.mpris.MediaPlayer2.vlc''
                                ''/org/mpris/MediaPlayer2'')),
        (''mpv'', MediaPlayer (ProxyObject ''org.mpris.MediaPlayer2.mpv''
                                ''/org/mpris/MediaPlayer2''))}"
    by (simp add: two_players_discovered)
  with ok d show ?thesis by (intro conjI)
qed

text \<open>
  C5. \<open>MediaPlayersRegistry._signal_update\<close> calls \<open>reindex\<close> if and only if it receives
  at least one argument and the first argument starts with 'org.mpris.MediaPlayer2.':
  then it is the call of \<open>reindex\<close>, which always reaches for the bus; on any other
  notification the registry and the outside are left as they were, and nothing is
  asked of the bus.
\<close>

theorem signal_update_reindexes_iff:
  "signal_update E args self fx =
     (if args \<noteq> [] \<and> startswith (hd args) ''org.mpris.MediaPlayer2.''
      then reindex E self fx
      else (Inr (), self, fx))
   \<and> (trace (snd (snd (signal_update E args self fx))) \<noteq> trace fx)
     = (args \<noteq> [] \<and> startswith (hd args) ''org.mpris.MediaPlayer2.'')"
proof -
  have eq: "signal_update E args self fx =
     (if args \<noteq> [] \<and> startswith (hd args) ''org.mpris.MediaPlayer2.''
      then reindex E self fx
      else (Inr (), self, fx))"
    by (cases args) (simp_all add: signal_update_def mpris_prefix_def)
  have "trace (snd (snd (reindex E self fx))) \<noteq> trace fx"
    using reindex_trace [of fx E self] by auto
  with eq show ?thesis by simp
qed

text \<open>
  C6. \<open>MediaPlayerCommandsSource.get_items\<close> yields exactly seven command leaves, in the
  order PlayPause, Play, Stop, Pause, Next, Previous, Quit, and \<open>do_command\<close> of each
  leaf makes exactly one remote call on the player it is given: the procedure of the
  leaf's own name, Quit on the root interface \<open>org.mpris.MediaPlayer2\<close> and the other
  six on the player interface \<open>org.mpris.MediaPlayer2.Player\<close>.
\<close>

theorem command_leaves_and_their_calls:
  "MediaPlayerCommandsSource_get_items = [PlayPause, Play, Stop, Pause, Next, Previous, Quit]
   \<and> length MediaPlayerCommandsSource_get_items = 7
   \<and> map (\<lambda>leaf. trace (snd (do_command E leaf (MediaPlayer dbus_obj) fx)))
         MediaPlayerCommandsSource_get_items
     = map (\<lambda>(i, method). trace fx @ [EvCall (Interface dbus_obj i) method []])
         [(''org.mpris.MediaPlayer2.Player'', ''PlayPause''),
          (''org.mpris.MediaPlayer2.Player'', ''Play''),
          (''org.mpris.MediaPlayer2.Player'', ''Stop''),
          (''org.mpris.MediaPlayer2.Player'', ''Pause''),
          (''org.mpris.MediaPlayer2.Player'', ''Next''),
          (''org.mpris.MediaPlayer2.Player'', ''Previous''),
          (''org.mpris.MediaPlayer2'', ''Quit'')]"
  by (simp add: MediaPlayerCommandsSource_get_items_def dbus_call_trace)

text \<open>
  C7. \<open>HototAction.valid_for_item\<close> returns True if and only if the item's name is
  'Hotot' and the Hotot connection succeeds, and \<open>Toggle.valid_for_item\<close> returns True if
  and only if the item's id is one of the two Hamster application names and the Hamster
  connection succeeds.
\<close>

theorem valid_for_item_iff:
  "fst (HototAction_valid_for_item E self item fx)
     = (app_name item = ''Hotot'' \<and> fst (get_hotot E fx) \<noteq> None)
   \<and> fst (Toggle_valid_for_item E item fx)
     = (app_id item \<in> {''hamster-indicator'', ''hamster-time-tracker''}
        \<and> fst (get_hamster E fx) \<noteq> None)"
  by (simp add: HototAction_valid_for_item_def Toggle_valid_for_item_def HAMSTER_APPNAMES_def
      split: prod.splits)

text \<open>
  C8. Every timestamp forwarded to Hamster is the epoch time shifted by the timezone
  offset, \<open>time.time() - time.timezone\<close>; the shift is never left out. When the Hamster
  connection succeeds, \<open>StartActivity.activate\<close> makes one remote call after the
  connection attempt, \<open>AddFact\<close> with the leaf's object, the start time
  \<open>time.time() - time.timezone\<close>, end time 0 and temporary False, and
  \<open>StopTrackingLeaf.run\<close> makes one remote call, \<open>StopTracking\<close> with
  \<open>time.time() - time.timezone\<close>. The forwarded number coincides with \<open>time.time()\<close>
  only where the offset \<open>time.timezone\<close> is 0.
\<close>

theorem hamster_timestamps_shifted:
  assumes "fst (get_hamster E fx) = Some hamster"
  shows "trace (snd (StartActivity_activate E leaf fx)) =
           trace (snd (get_hamster E fx)) @
             [EvCall hamster ''AddFact''
                [Str (leaf_object leaf), Num (time_time E - real_of_int (time_timezone E)),
                 IntArg 0, Bool False]]
         \<and> trace (snd (StopTrackingLeaf_run E fx)) =
           trace (snd (get_hamster E fx)) @
             [EvCall hamster ''StopTracking''
                [Num (time_time E - real_of_int (time_timezone E))]]
         \<and> (time_time E - real_of_int (time_timezone E) = time_time E) = (time_timezone E = 0)"
  using assms
  by (simp add: StartActivity_activate_def StopTrackingLeaf_run_def dbus_call_trace
      split_beta)

theorem hamster_timestamps_shifted_witness:
  "fst (get_hamster (quiet_env\<lparr>time_timezone := - 3600\<rparr>) no_effects) =
     Some (Interface (ProxyObject ''org.gnome.Hamster'' ''/org/gnome/Hamster'')
             ''org.gnome.Hamster'')
   \<and> trace (snd (StartActivity_activate (quiet_env\<lparr>time_timezone := - 3600\<rparr>)
                   (ActivityLeaf ''work'') no_effects))
     = [EvSessionBus, EvGetObject ''org.gnome.Hamster'' ''/org/gnome/Hamster'',
        EvCall (Interface (ProxyObject ''org.gnome.Hamster'' ''/org/gnome/Hamster'')
                  ''org.gnome.Hamster'')
          ''AddFact'' [Str ''work'', Num 1700003600, IntArg 0, Bool False]]
   \<and> trace (snd (StopTrackingLeaf_run (quiet_env\<lparr>time_timezone := - 3600\<rparr>) no_effects))
     = [EvSessionBus, EvGetObject ''org.gnome.Hamster'' ''/org/gnome/Hamster'',
        EvCall (Interface (ProxyObject ''org.gnome.Hamster'' ''/org/gnome/Hamster'')
                  ''org.gnome.Hamster'')
          ''StopTracking'' [Num 1700003600]]"
proof -
  have h: "fst (get_hamster (quiet_env\<lparr>time_timezone := - 3600\<rparr>) no_effects) =
     Some (Interface (ProxyObject ''org.gnome.Hamster'' ''/org/gnome/Hamster'')
             ''org.gnome.Hamster'')"
    by (simp add: get_hamster_result quiet_env_def)
  show ?thesis
    using h hamster_timestamps_shifted [OF h, of "ActivityLeaf ''work''"]
    by (simp add: get_hamster_trace quiet_env_def no_effects_def ActivityLeaf_def)
qed

text \<open>
  C9. When the Hamster connection succeeds and the \<open>GetActivities('')\<close> call does not
  raise, \<open>ActivitiesSource.get_items\<close> yields one leaf per activity record of the reply,
  in the reply's order. The name of a leaf (which is also its object) is the record's
  first field, with '@' and the second field appended exactly when the second field is
  not empty.
\<close>

theorem get_items_one_leaf_per_activity:
  assumes "fst (get_hamster E fx) = Some hamster"
    and "call_fails E hamster ''GetActivities'' [Str []] = None"
  shows "fst (ActivitiesSource_get_items E fx) = Inr (activity_leaves (hamster_activities E))
         \<and> length (activity_leaves (hamster_activities E)) = length (hamster_activities E)
         \<and> map leaf_name (activity_leaves (hamster_activities E)) =
             map (\<lambda>act. if snd act \<noteq> [] then fst act @ ''@'' @ snd act else fst act)
               (hamster_activities E)
         \<and> map leaf_object (activity_leaves (hamster_activities E)) =
             map leaf_name (activity_leaves (hamster_activities E))"
proof -
  have "fst (ActivitiesSource_get_items E fx) = Inr (activity_leaves (hamster_activities E))"
    using assms by (simp add: ActivitiesSource_get_items_def dbus_call_def split_beta)
  then show ?thesis
    using activity_leaves_names [of "hamster_activities E"]
      activity_leaves_objects [of "hamster_activities E"]
      activity_leaves_length [of "hamster_activities E"]
    by (intro conjI)
qed

theorem get_items_one_leaf_per_activity_witness:
  "fst (get_hamster (quiet_env\<lparr>hamster_activities := [(''coding'', ''work''), (''lunch'', [])]\<rparr>)
          no_effects)
     = Some (Interface (ProxyObject ''org.gnome.Hamster'' ''/org/gnome/Hamster'')
               ''org.gnome.Hamster'')
   \<and> call_fails (quiet_env\<lparr>hamster_activities := [(''coding'', ''work''), (''lunch'', [])]\<rparr>)
       (Interface (ProxyObject ''org.gnome.Hamster'' ''/org/gnome/Hamster'') ''org.gnome.Hamster'')
       ''GetActivities'' [Str []] = None
   \<and> map leaf_name (activity_leaves (hamster_activities
         (quiet_env\<lparr>hamster_activities := [(''coding'', ''work''), (''lunch'', [])]\<rparr>)))
     = [''coding@work'', ''lunch'']
   \<and> fst (ActivitiesSource_get_items
         (quiet_env\<lparr>hamster_activities := [(''coding'', ''work''), (''lunch'', [])]\<rparr>) no_effects)
     = Inr (activity_leaves (hamster_activities
         (quiet_env\<lparr>hamster_activities := [(''coding'', ''work''), (''lunch'', [])]\<rparr>)))"
proof -
  let ?E = "quiet_env\<lparr>hamster_activities := [(''coding'', ''work''), (''lunch'', [])]\<rparr>"
  let ?H = "Interface (ProxyObject ''org.gnome.Hamster'' ''/org/gnome/Hamster'')
              ''org.gnome.Hamster''"
  have h1: "fst (get_hamster ?E no_effects) = Some ?H"
    by (simp add: get_hamster_result quiet_env_def)
  have h2: "call_fails ?E ?H ''GetActivities'' [Str []] = None"
    by (simp add: quiet_env_def)
  have names: "map leaf_name (activity_leaves (hamster_activities ?E))
     = [''coding@work'', ''lunch'']"
    by (simp add: ActivityLeaf_def Let_def)
  from get_items_one_leaf_per_activity [OF h1 h2]
  have "fst (ActivitiesSource_get_items ?E no_effects)
          = Inr (activity_leaves (hamster_activities ?E))"
    by (rule conjunct1)
  with h1 h2 names show ?thesis by (intro conjI)
qed

text \<open>
  C10. Whatever the table of active players holds, \<open>players\<close> yields exactly its keys,
  and for every name it yields \<open>get_player\<close> succeeds and returns the player registered
  under that name. So \<open>MediaPlayersGenerator.get_actions_for_leaf\<close> raises no KeyError:
  for a command leaf it returns one \<open>MediaPlayerAction\<close> per yielded name, in order, each
  holding the player looked up under its name, and for any other leaf the empty list.
\<close>

theorem players_lookups_succeed:
  "players registry = map fst (active_players registry)
   \<and> (\<forall>nm\<in>set (players registry).
        \<exists>p. get_player registry nm = Inr p \<and> (nm, p) \<in> set (active_players registry))
   \<and> (\<exists>acts. get_actions_for_leaf registry (CommandLeaf c) = Inr acts
        \<and> map action_name acts = players registry
        \<and> (\<forall>a\<in>set acts. get_player registry (action_name a) = Inr (action_player a)))
   \<and> get_actions_for_leaf registry (OtherLeaf l) = Inr []"
proof -
  have "set (players registry) \<subseteq> fst ` set (active_players registry)"
    by (simp add: players_def)
  from actions_for_players_ok [OF this]
  have "\<exists>acts. get_actions_for_leaf registry (CommandLeaf c) = Inr acts
        \<and> map action_name acts = players registry
        \<and> (\<forall>a\<in>set acts. get_player registry (action_name a) = Inr (action_player a))"
    by simp
  moreover have "\<forall>nm\<in>set (players registry).
        \<exists>p. get_player registry nm = Inr p \<and> (nm, p) \<in> set (active_players registry)"
    using get_player_registered by (rule ballI)
  moreover have "players registry = map fst (active_players registry)"
    by (simp add: players_def)
  ultimately show ?thesis by simp
qed

theorem players_lookups_succeed_witness:
  "''vlc'' \<in> set (players \<lparr>active_players =
        [(''vlc'', MediaPlayer (ProxyObject ''org.mpris.MediaPlayer2.vlc''
                                 ''/org/mpris/MediaPlayer2''))]\<rparr>)
   \<and> (\<exists>p. get_player \<lparr>active_players =
        [(''vlc'', MediaPlayer (ProxyObject ''org.mpris.MediaPlayer2.vlc''
                                 ''/org/mpris/MediaPlayer2''))]\<rparr> ''vlc'' = Inr p
        \<and> (''vlc'', p) \<in> set (active_players \<lparr>active_players =
        [(''vlc'', MediaPlayer (ProxyObject ''org.mpris.MediaPlayer2.vlc''
                                 ''/org/mpris/MediaPlayer2''))]\<rparr>))"
proof -
  let ?reg = "\<lparr>active_players =
        [(''vlc'', MediaPlayer (ProxyObject ''org.mpris.MediaPlayer2.vlc''
                                 ''/org/mpris/MediaPlayer2''))]\<rparr>"
  have mem: "''vlc'' \<in> set (players ?reg)"
    by (simp add: players_def)
  from players_lookups_succeed [of ?reg Play "\<lparr>leaf_object = [], leaf_name = []\<rparr>"]
  have "\<forall>nm\<in>set (players ?reg).
          \<exists>p. get_player ?reg nm = Inr p \<and> (nm, p) \<in> set (active_players ?reg)"
    by (elim conjE)
  from bspec [OF this mem] mem show ?thesis by (intro conjI)
qed

end
